theory Spec2Isabelle
  imports Complex_Main "HOL-Library.Sublist" "HOL-Library.Multiset"
begin

section \<open>Data model: a pandas DataFrame as the dashboard uses it\<close>

text \<open>
  The dashboard (\<^verbatim>\<open>app.py\<close>) works on pandas DataFrames produced by \<^verbatim>\<open>read_csv\<close>.
  A frame is modelled row-major: the ordered list of named, typed columns and the ordered
  list of rows, each row carrying its index label and one cell per column. A missing
  value (NaN, None, NaT) is the cell \<open>NaN\<close>. A number is the exact value of a finite
  float: the filters only compare numbers (\<^verbatim>\<open>>=\<close>, \<^verbatim>\<open><=\<close>, \<^verbatim>\<open>==\<close>, min, max), which is
  exact on them. Infinite values, and whole numbers of an int64 column beyond \<open>2 ^ 53\<close>,
  which \<^verbatim>\<open>float()\<close> would round, are outside the model.
\<close>

datatype dtype = Object | Number | Datetime64 | Boolean

datatype cell = NaN | Str string | Num rat | Stamp int | Flag bool

type_synonym row = "nat \<times> cell list"

record dataframe =
  columns :: "(string \<times> dtype) list"
  rows :: "row list"

datatype error =
  KeyError string | AttributeError string | FileNotFoundError string | EmptyDataError
  | ParserError

datatype notice = Info_too_many_unique string nat | Info_all_values string rat

definition column_names :: "dataframe \<Rightarrow> string list" where
  "column_names df = map fst (columns df)"

text \<open>\<^verbatim>\<open>len(df)\<close>\<close>

definition len :: "dataframe \<Rightarrow> nat" where
  "len df = length (rows df)"

text \<open>
  The cell of a row under a column name. A row shorter than the header reads as missing,
  as \<^verbatim>\<open>read_csv\<close> pads short lines.
\<close>

definition cell_of :: "string list \<Rightarrow> string \<Rightarrow> row \<Rightarrow> cell" where
  "cell_of names c r = (case map_of (zip names (snd r)) c of Some v \<Rightarrow> v | None \<Rightarrow> NaN)"

text \<open>The values of one column, in row order.\<close>

definition series :: "dataframe \<Rightarrow> string \<Rightarrow> cell list" where
  "series df c = map (cell_of (column_names df) c) (rows df)"

text \<open>\<^verbatim>\<open>df.dtypes[col]\<close>\<close>

definition dtype_of :: "dataframe \<Rightarrow> string \<Rightarrow> dtype option" where
  "dtype_of df c = map_of (columns df) c"

text \<open>\<^verbatim>\<open>df[col]\<close>: the column as a series; an unknown label raises KeyError.\<close>

definition getitem :: "dataframe \<Rightarrow> string \<Rightarrow> error + cell list" where
  "getitem df c = (if c \<in> set (column_names df) then Inr (series df c) else Inl (KeyError c))"

text \<open>\<^verbatim>\<open>df[mask]\<close>: boolean indexing keeps the rows whose mask is true, in place and with
  their labels.\<close>

definition select_rows :: "(row \<Rightarrow> bool) \<Rightarrow> dataframe \<Rightarrow> dataframe" where
  "select_rows keep df = df\<lparr>rows := filter keep (rows df)\<rparr>"

definition dropna :: "cell list \<Rightarrow> cell list" where
  "dropna vs = filter (\<lambda>v. v \<noteq> NaN) vs"

text \<open>\<^verbatim>\<open>Series.unique()\<close> lists the distinct values in order of first appearance
  (\<open>remdups\<close> alone would keep the last occurrence of each).\<close>

definition unique :: "'a list \<Rightarrow> 'a list" where
  "unique vs = rev (remdups (rev vs))"

text \<open>\<^verbatim>\<open>Series.isin(values)\<close>, one cell at a time.\<close>

definition isin :: "cell list \<Rightarrow> cell \<Rightarrow> bool" where
  "isin vals v = (v \<in> set vals)"

section \<open>\<^verbatim>\<open>get_column_types\<close>\<close>

definition get_column_types :: "dataframe \<Rightarrow> string list \<times> string list" where
  "get_column_types df =
     (map fst (filter (\<lambda>(n, t). t = Number) (columns df)),
      map fst (filter (\<lambda>(n, t). t \<noteq> Number) (columns df)))"

section \<open>Section 3 of \<^verbatim>\<open>main\<close>: interactive filtering\<close>

text \<open>
  What the widgets hand back on one run of the script: the two select boxes, the
  multiselect and the range slider. A widget that is not drawn on a run is not read.
  Slider bounds are floats, so they may be NaN (\<open>None\<close> here).
\<close>

record widgets =
  cat_filter_col :: string
  cat_filter_values :: "cell list"
  num_filter_col :: string
  num_filter_range :: "rat option \<times> rat option"

text \<open>Line 277: \<^verbatim>\<open>df_filtered[df_filtered[filter_cat_col].isin(selected_values)]\<close>. The
  column exists when this line runs: line 266 has read it from the unfiltered frame, which
  has the same columns.\<close>

definition isin_filter :: "string \<Rightarrow> cell list \<Rightarrow> dataframe \<Rightarrow> dataframe" where
  "isin_filter c selected dff =
     select_rows (\<lambda>r. isin selected (cell_of (column_names dff) c r)) dff"

text \<open>Float comparisons of a cell with a slider bound: anything compared with NaN is false.\<close>

definition cell_ge :: "cell \<Rightarrow> rat option \<Rightarrow> bool" where
  "cell_ge v b = (case (v, b) of (Num x, Some y) \<Rightarrow> x \<ge> y | _ \<Rightarrow> False)"

definition cell_le :: "cell \<Rightarrow> rat option \<Rightarrow> bool" where
  "cell_le v b = (case (v, b) of (Num x, Some y) \<Rightarrow> x \<le> y | _ \<Rightarrow> False)"

text \<open>Lines 306-309: both comparisons, combined with \<^verbatim>\<open>&\<close>.\<close>

definition range_filter :: "string \<Rightarrow> rat option \<times> rat option \<Rightarrow> dataframe \<Rightarrow> dataframe" where
  "range_filter c range_values dff =
     select_rows (\<lambda>r. cell_ge (cell_of (column_names dff) c r) (fst range_values) \<and>
                      cell_le (cell_of (column_names dff) c r) (snd range_values)) dff"

text \<open>\<^verbatim>\<open>Series.min()\<close> and \<^verbatim>\<open>Series.max()\<close> skip missing values; on a column without any
  number they give NaN.\<close>

definition numbers :: "cell list \<Rightarrow> rat list" where
  "numbers vs = concat (map (\<lambda>v. case v of Num x \<Rightarrow> [x] | _ \<Rightarrow> []) vs)"

definition series_min :: "cell list \<Rightarrow> rat option" where
  "series_min vs = (case numbers vs of [] \<Rightarrow> None | x # xs \<Rightarrow> Some (fold min xs x))"

definition series_max :: "cell list \<Rightarrow> rat option" where
  "series_max vs = (case numbers vs of [] \<Rightarrow> None | x # xs \<Rightarrow> Some (fold max xs x))"

text \<open>Lines 265-279: the categorical filter on the chosen column.\<close>

definition categorical_step ::
  "dataframe \<Rightarrow> dataframe \<Rightarrow> string \<Rightarrow> cell list \<Rightarrow> error + dataframe \<times> notice list" where
  "categorical_step df df_filtered filter_cat_col selected_values =
     (if filter_cat_col \<noteq> ''None'' then
        (case getitem df filter_cat_col of
           Inl e \<Rightarrow> Inl e
         | Inr vals \<Rightarrow>
             (let unique_values = unique (dropna vals) in
              if length unique_values \<le> 50 then
                (if selected_values \<noteq> []
                 then Inr (isin_filter filter_cat_col selected_values df_filtered, [])
                 else Inr (df_filtered, []))
              else Inr (df_filtered,
                        [Info_too_many_unique filter_cat_col (length unique_values)])))
      else Inr (df_filtered, []))"

text \<open>Lines 291-309: the numeric range filter on the chosen column; its bounds come from
  the unfiltered frame. On a column without any number both bounds are NaN, and NaN is not
  equal to NaN, so the slider branch runs.\<close>

definition numeric_step ::
  "dataframe \<Rightarrow> dataframe \<Rightarrow> string \<Rightarrow> rat option \<times> rat option \<Rightarrow>
     error + dataframe \<times> notice list" where
  "numeric_step df df_filtered filter_num_col range_values =
     (if filter_num_col \<noteq> ''None'' then
        (case getitem df filter_num_col of
           Inl e \<Rightarrow> Inl e
         | Inr vals \<Rightarrow>
             (case (series_min vals, series_max vals) of
                (Some col_min, Some col_max) \<Rightarrow>
                  if col_min = col_max
                  then Inr (df_filtered, [Info_all_values filter_num_col col_min])
                  else Inr (range_filter filter_num_col range_values df_filtered, [])
              | _ \<Rightarrow> Inr (range_filter filter_num_col range_values df_filtered, [])))
      else Inr (df_filtered, []))"

text \<open>Lines 249-309 as a whole: the view shown, exported and plotted, with the notes
  printed on the way.\<close>

definition main_filter :: "dataframe \<Rightarrow> widgets \<Rightarrow> error + dataframe \<times> notice list" where
  "main_filter df w =
     (let (numeric_cols, categorical_cols) = get_column_types df;
          df_filtered = df
      in case (if categorical_cols \<noteq> []
               then categorical_step df df_filtered (cat_filter_col w) (cat_filter_values w)
               else Inr (df_filtered, [])) of
           Inl e \<Rightarrow> Inl e
         | Inr (df_filtered, notes) \<Rightarrow>
             (case (if numeric_cols \<noteq> []
                    then numeric_step df df_filtered (num_filter_col w) (num_filter_range w)
                    else Inr (df_filtered, [])) of
                Inl e \<Rightarrow> Inl e
              | Inr (df_filtered, notes') \<Rightarrow> Inr (df_filtered, notes @ notes')))"

section \<open>\<^verbatim>\<open>calculate_missing_values\<close>\<close>

text \<open>\<^verbatim>\<open>df.isnull().sum()\<close> counts the missing cells of each column.\<close>

definition isnull_sum :: "cell list \<Rightarrow> nat" where
  "isnull_sum vs = length (filter (\<lambda>v. v = NaN) vs)"

subsection \<open>The float arithmetic of line 59\<close>



text \<open>The number of binary digits of a natural number.\<close>

fun bitlen :: "nat \<Rightarrow> nat" where
  "bitlen n = (if n = 0 then 0 else Suc (bitlen (n div 2)))"

declare bitlen.simps [simp del]







subsection \<open>The summary frame and its order\<close>

text \<open>One line of the summary frame: the column (its index label), 'Missing Count' and
  'Missing %'.\<close>

type_synonym summary_row = "string \<times> nat \<times> rat option"

definition missing_count :: "summary_row \<Rightarrow> nat" where
  "missing_count line = fst (snd line)"



text \<open>
  \<^verbatim>\<open>sort_values('Missing Count', ascending=False)\<close>: for a descending sort on one column
  pandas reverses the lines, sorts them ascending by the count and reverses the result.
  The ascending sort in between is insertion sort here, which leaves lines with equal
  counts in the order it was given them.
\<close>

definition sort_values_desc :: "summary_row list \<Rightarrow> summary_row list" where
  "sort_values_desc given = rev (sort_key missing_count (rev given))"


section \<open>\<^verbatim>\<open>attempt_type_conversion\<close>\<close>

text \<open>
  \<^verbatim>\<open>pd.to_numeric\<close> and \<^verbatim>\<open>pd.to_datetime\<close> are library parsers; they are parameters of the
  model, giving for one string either a value, a failure that \<^verbatim>\<open>errors='coerce'\<close> turns
  into a missing value, or an exception (which the bare \<^verbatim>\<open>except: pass\<close> swallows for the
  whole column). An object column read from CSV holds strings and missing values, or, when
  a column of True and False has blanks, booleans and missing values. A missing value stays
  missing; \<^verbatim>\<open>pd.to_numeric\<close> reads a boolean as 1 or 0 and leaves a number as it is;
  \<^verbatim>\<open>pd.to_datetime\<close> coerces a boolean to missing.
\<close>

datatype 'a coerced = Parsed 'a | Unparsed | Raised

definition numeric_cell :: "(string \<Rightarrow> rat coerced) \<Rightarrow> cell \<Rightarrow> cell" where
  "numeric_cell to_numeric v =
     (case v of
        Str s \<Rightarrow> (case to_numeric s of Parsed x \<Rightarrow> Num x | _ \<Rightarrow> NaN)
      | Num x \<Rightarrow> Num x
      | Flag b \<Rightarrow> Num (if b then 1 else 0)
      | _ \<Rightarrow> NaN)"

definition datetime_cell :: "(string \<Rightarrow> int coerced) \<Rightarrow> cell \<Rightarrow> cell" where
  "datetime_cell to_datetime v =
     (case v of
        Str s \<Rightarrow> (case to_datetime s of Parsed t \<Rightarrow> Stamp t | _ \<Rightarrow> NaN)
      | Stamp t \<Rightarrow> Stamp t
      | _ \<Rightarrow> NaN)"

text \<open>What \<^verbatim>\<open>read_csv\<close> leaves in an object column: strings and blanks, or booleans and
  blanks.\<close>

definition read_csv_object :: "cell list \<Rightarrow> bool" where
  "read_csv_object vals \<longleftrightarrow>
     list_all (\<lambda>v. case v of Str _ \<Rightarrow> True | NaN \<Rightarrow> True | _ \<Rightarrow> False) vals \<or>
     list_all (\<lambda>v. case v of Flag _ \<Rightarrow> True | NaN \<Rightarrow> True | _ \<Rightarrow> False) vals"

definition raises :: "(string \<Rightarrow> 'a coerced) \<Rightarrow> cell list \<Rightarrow> bool" where
  "raises parse vs = (\<exists>v \<in> set vs. case v of Str s \<Rightarrow> parse s = Raised | _ \<Rightarrow> False)"

definition notna_sum :: "cell list \<Rightarrow> nat" where
  "notna_sum vs = length (filter (\<lambda>v. v \<noteq> NaN) vs)"

text \<open>
  The float test \<^verbatim>\<open>a / b > t\<close> on two counts. numpy integers divide without raising:
  \<^verbatim>\<open>0 / 0\<close> is NaN (greater than nothing) and \<^verbatim>\<open>a / 0\<close> is infinite. For the thresholds
  0.5 and 0.9 the rounded float quotient compares as the exact quotient does, for every
  row count below \<open>2 ^ 50\<close>.
\<close>

definition ratio_gt :: "nat \<Rightarrow> nat \<Rightarrow> rat \<Rightarrow> bool" where
  "ratio_gt a b t = (if b = 0 then a \<noteq> 0 else of_nat a / of_nat b > t)"

text \<open>\<^verbatim>\<open>df_converted[col] = converted\<close>: the column's cells and dtype are replaced.\<close>

definition setitem :: "dataframe \<Rightarrow> string \<Rightarrow> dtype \<Rightarrow> (cell \<Rightarrow> cell) \<Rightarrow> dataframe" where
  "setitem df c t f =
     \<lparr>columns = map (\<lambda>(n, t0). if n = c then (n, t) else (n, t0)) (columns df),
      rows = map (\<lambda>(i, cells).
                (i, map (\<lambda>(n, v). if n = c then f v else v) (zip (column_names df) cells)))
              (rows df)\<rparr>"

text \<open>The arrow of the log lines is U+2192, three bytes in UTF-8; the column name is put
  between single quotes.\<close>

definition arrow :: string where
  "arrow = [CHR 0xE2, CHR 0x86, CHR 0x92]"

definition change_line :: "string \<Rightarrow> string \<Rightarrow> string" where
  "change_line col kind = [CHR 0x27] @ col @ [CHR 0x27] @ '' '' @ arrow @ '' '' @ kind"

text \<open>One pass of the loop body (lines 81-103) for the column \<open>col\<close>.\<close>

definition convert_column ::
  "(string \<Rightarrow> rat coerced) \<Rightarrow> (string \<Rightarrow> int coerced) \<Rightarrow> string \<Rightarrow>
     dataframe \<times> string list \<Rightarrow> dataframe \<times> string list" where
  "convert_column to_numeric to_datetime col state =
     (let (df_converted, changes) = state;
          vals = series df_converted col
      in if ratio_gt (isnull_sum vals) (len df_converted) (1 / 2) then state
         else if \<not> raises to_numeric vals \<and>
                 ratio_gt (notna_sum (map (numeric_cell to_numeric) vals)) (notna_sum vals) (9 / 10)
         then (setitem df_converted col Number (numeric_cell to_numeric),
               changes @ [change_line col ''numeric''])
         else if \<not> raises to_datetime vals \<and>
                 ratio_gt (notna_sum (map (datetime_cell to_datetime) vals)) (notna_sum vals) (9 / 10)
         then (setitem df_converted col Datetime64 (datetime_cell to_datetime),
               changes @ [change_line col ''datetime''])
         else state)"

definition object_columns :: "dataframe \<Rightarrow> string list" where
  "object_columns df = map fst (filter (\<lambda>(n, t). t = Object) (columns df))"

definition attempt_type_conversion ::
  "(string \<Rightarrow> rat coerced) \<Rightarrow> (string \<Rightarrow> int coerced) \<Rightarrow> dataframe \<Rightarrow>
     dataframe \<times> string list" where
  "attempt_type_conversion to_numeric to_datetime df =
     fold (convert_column to_numeric to_datetime) (object_columns df) (df, [])"

subsection \<open>The decision as the specification words it\<close>

text \<open>
  Section 4.1 of the specification, for one text column: skip it when nulls / row count
  exceeds 0.5; otherwise convert to numeric when parsed / non-null exceeds 0.9; otherwise
  to datetime under the same rule; otherwise leave it as text. The ratios are exact
  fractions, and a ratio over nothing counts as 0 (section 7: nothing is divided by zero
  on an empty table). This definition is compared with the code below.
\<close>

datatype verdict = Skipped | To_numeric | To_datetime | Stays_text

definition spec_ratio :: "nat \<Rightarrow> nat \<Rightarrow> rat" where
  "spec_ratio a b = (if b = 0 then 0 else of_nat a / of_nat b)"

definition spec_verdict ::
  "(string \<Rightarrow> rat coerced) \<Rightarrow> (string \<Rightarrow> int coerced) \<Rightarrow> nat \<Rightarrow> cell list \<Rightarrow> verdict" where
  "spec_verdict to_numeric to_datetime row_count vals =
     (if spec_ratio (isnull_sum vals) row_count > 1 / 2 then Skipped
      else if spec_ratio (notna_sum (map (numeric_cell to_numeric) vals)) (notna_sum vals)
                > 9 / 10
      then To_numeric
      else if spec_ratio (notna_sum (map (datetime_cell to_datetime) vals)) (notna_sum vals)
                > 9 / 10
      then To_datetime
      else Stays_text)"

text \<open>What a verdict means for the column's values, its dtype and the change log.\<close>

definition converted_values ::
  "(string \<Rightarrow> rat coerced) \<Rightarrow> (string \<Rightarrow> int coerced) \<Rightarrow> verdict \<Rightarrow> cell list \<Rightarrow>
     cell list" where
  "converted_values to_numeric to_datetime v vals =
     (case v of
        To_numeric \<Rightarrow> map (numeric_cell to_numeric) vals
      | To_datetime \<Rightarrow> map (datetime_cell to_datetime) vals
      | _ \<Rightarrow> vals)"

definition converted_dtype :: "verdict \<Rightarrow> dtype \<Rightarrow> dtype" where
  "converted_dtype v t = (case v of To_numeric \<Rightarrow> Number | To_datetime \<Rightarrow> Datetime64 | _ \<Rightarrow> t)"

definition log_lines :: "string \<Rightarrow> verdict \<Rightarrow> string list" where
  "log_lines c v =
     (case v of
        To_numeric \<Rightarrow> [change_line c ''numeric'']
      | To_datetime \<Rightarrow> [change_line c ''datetime'']
      | _ \<Rightarrow> [])"

section \<open>Loading in \<^verbatim>\<open>main\<close>: files and the session state\<close>

text \<open>
  \<^verbatim>\<open>pd.read_csv\<close> is given either a path or the uploaded file. A path is opened afresh by
  every call; a missing file raises FileNotFoundError. The uploaded file is one stream
  for the whole run: a call reads from where the last one stopped, so a second call finds
  the stream at its end and raises EmptyDataError. \<open>Csv df\<close> stands for bytes that
  parse to the frame \<open>df\<close>, \<open>Unreadable\<close> for bytes on which the parser raises.
\<close>

datatype file_content = Csv dataframe | Unreadable

record uploaded =
  up_name :: string
  up_content :: file_content
  up_at_end :: bool

datatype source = Path string | Upload uploaded

type_synonym file_system = "string \<Rightarrow> file_content option"

definition parse_csv :: "file_content \<Rightarrow> error + dataframe" where
  "parse_csv content = (case content of Csv df \<Rightarrow> Inr df | Unreadable \<Rightarrow> Inl ParserError)"

fun read_csv :: "file_system \<Rightarrow> source \<Rightarrow> (error + dataframe) \<times> source" where
  "read_csv fs (Path p) =
     ((case fs p of None \<Rightarrow> Inl (FileNotFoundError p) | Some content \<Rightarrow> parse_csv content),
      Path p)"
| "read_csv fs (Upload u) =
     ((if up_at_end u then Inl EmptyDataError else parse_csv (up_content u)),
      Upload (u\<lparr>up_at_end := True\<rparr>))"

text \<open>\<^verbatim>\<open>load_csv\<close> (lines 30-40): any exception becomes \<^verbatim>\<open>None\<close>.\<close>

definition load_csv :: "file_system \<Rightarrow> source \<Rightarrow> dataframe option \<times> source" where
  "load_csv fs uploaded_file =
     (case read_csv fs uploaded_file of
        (Inl e, after) \<Rightarrow> (None, after)
      | (Inr df, after) \<Rightarrow> (Some df, after))"

text \<open>
  \<^verbatim>\<open>st.session_state\<close> holds the frame and the file name between runs of the script. Reading
  a key that was never stored raises KeyError, an attribute that was never stored
  AttributeError.
\<close>

record session_state =
  ss_df :: "dataframe option"
  ss_filename :: "string option"
  ss_conversion_changes :: "string list option"

definition fresh_session :: session_state where
  "fresh_session = \<lparr>ss_df = None, ss_filename = None, ss_conversion_changes = None\<rparr>"

text \<open>How a run ends: by \<^verbatim>\<open>return\<close>, by \<^verbatim>\<open>st.stop()\<close>, or past line 213 with the frame
  every later section works on and the change lines printed.\<close>

datatype outcome = Returned | Stopped | Shown dataframe "string list"

text \<open>Lines 192-213: the frame is read back from the session state, and so are the
  change lines.\<close>

definition show_overview :: "session_state \<Rightarrow> (error + outcome) \<times> session_state" where
  "show_overview s =
     (case ss_df s of
        None \<Rightarrow> (Inl (KeyError ''df''), s)
      | Some df \<Rightarrow>
          (case ss_conversion_changes s of
             None \<Rightarrow> (Inl (AttributeError ''conversion_changes''), s)
           | Some changes \<Rightarrow> (Inr (Shown df changes), s)))"

text \<open>The name the frame is stored under (lines 166-169).\<close>

definition current_filename :: "source \<Rightarrow> string" where
  "current_filename uploaded_file =
     (case uploaded_file of Path p \<Rightarrow> p | Upload u \<Rightarrow> up_name u)"

text \<open>
  Lines 157-213. Line 157 loads the file again; lines 172-189 load it once more when the
  session holds no frame or another file's, and store what they get.
\<close>

definition main_load ::
  "file_system \<Rightarrow> source \<Rightarrow> session_state \<Rightarrow> (error + outcome) \<times> session_state" where
  "main_load fs uploaded_file s =
     (case load_csv fs uploaded_file of
        (None, after) \<Rightarrow> (Inr Returned, s)
      | (Some df_raw, after) \<Rightarrow>
          if ss_df s = None \<or> ss_filename s \<noteq> Some (current_filename after) then
            (case after of
               Path p \<Rightarrow>
                 (case fst (read_csv fs after) of
                    Inl e \<Rightarrow>
                      (case e of
                         FileNotFoundError missing \<Rightarrow> (Inr Stopped, s)
                       | _ \<Rightarrow> (Inl e, s))
                  | Inr df \<Rightarrow>
                      show_overview
                        (s\<lparr>ss_df := Some df, ss_filename := Some (current_filename after)\<rparr>))
             | Upload u \<Rightarrow>
                 (case fst (load_csv fs after) of
                    None \<Rightarrow> (Inr Stopped, s)
                  | Some df \<Rightarrow>
                      show_overview
                        (s\<lparr>ss_df := Some df, ss_filename := Some (current_filename after)\<rparr>)))
          else show_overview s)"

text \<open>
  Lines 125-213: \<open>uploaded_file\<close> is what the file uploader holds and \<open>use_sample\<close>
  the demo checkbox. Line 136 reads the sample file outside \<^verbatim>\<open>load_csv\<close> and catches only
  FileNotFoundError; line 144 reads the upload a first time.
\<close>

definition main_overview ::
  "file_system \<Rightarrow> uploaded option \<Rightarrow> bool \<Rightarrow> session_state \<Rightarrow>
     (error + outcome) \<times> session_state" where
  "main_overview fs uploaded_file use_sample s =
     (if use_sample then
        (case fst (read_csv fs (Path ''sample_data.csv'')) of
           Inl e \<Rightarrow>
             (case e of
                FileNotFoundError missing \<Rightarrow> (Inr Returned, s)
              | _ \<Rightarrow> (Inl e, s))
         | Inr df_raw \<Rightarrow> main_load fs (Path ''sample_data.csv'') s)
      else
        (case uploaded_file of
           Some u \<Rightarrow> main_load fs (snd (load_csv fs (Upload u))) s
         | None \<Rightarrow> (Inr Returned, s)))"

section \<open>Sampling for the scatter plot\<close>

text \<open>
  \<^verbatim>\<open>DataFrame.sample(n, random_state)\<close>: given an integer \<^verbatim>\<open>random_state\<close>, pandas draws
  with a generator of its own seeded with it (\<^verbatim>\<open>np.random.RandomState(seed)\<close>); given none,
  it draws with numpy's global generator, whose state is whatever earlier draws left. The
  generator, its seeding and the draw are numpy's and are parameters here: \<open>seed k\<close> is
  the generator seeded with \<open>k\<close>, and \<open>draw g n xs\<close> draws \<open>n\<close> of the rows \<open>xs\<close>
  with the generator \<open>g\<close>. \<open>global\<close> is the state of the global generator.
\<close>

definition sample ::
  "(nat \<Rightarrow> 'g) \<Rightarrow> ('g \<Rightarrow> nat \<Rightarrow> row list \<Rightarrow> row list) \<Rightarrow> 'g \<Rightarrow>
     nat \<Rightarrow> nat option \<Rightarrow> dataframe \<Rightarrow> dataframe" where
  "sample seed draw global n random_state df =
     df\<lparr>rows := draw (case random_state of Some k \<Rightarrow> seed k | None \<Rightarrow> global) n (rows df)\<rparr>"

text \<open>Lines 447-451. More than 5000 rows are at hand when the sample is asked for, so the
  error pandas raises for a sample larger than the frame cannot occur.\<close>

definition scatter_sample ::
  "(nat \<Rightarrow> 'g) \<Rightarrow> ('g \<Rightarrow> nat \<Rightarrow> row list \<Rightarrow> row list) \<Rightarrow> 'g \<Rightarrow>
     dataframe \<Rightarrow> dataframe" where
  "scatter_sample seed draw global df_plot =
     (if len df_plot > 5000
      then sample seed draw global 5000 (Some 42) df_plot
      else df_plot)"

section \<open>Worked examples\<close>

text \<open>Small frames on which the results below are instantiated.\<close>

definition cities :: dataframe where
  "cities = \<lparr>columns = [(''city'', Object)], rows = [(0, [Str ''Oslo'']), (1, [NaN])]\<rparr>"

definition towns :: dataframe where
  "towns = \<lparr>columns = [(''city'', Object)],
            rows = [(0, [Str ''Oslo'']), (1, [Str ''Rome'']), (2, [Str ''Oslo''])]\<rparr>"

definition tens :: dataframe where
  "tens = \<lparr>columns = [(''x'', Number)],
           rows = [(0, [Num 10]), (1, [Num 10]), (2, [Num 10])]\<rparr>"

definition stamps :: dataframe where
  "stamps = \<lparr>columns = [(''when'', Datetime64)],
             rows = map (\<lambda>i. (i, [Stamp (int i)])) [0..<51]\<rparr>"


definition scores :: dataframe where
  "scores = \<lparr>columns = [(''team'', Object), (''score'', Number)],
             rows = [(0, [Str ''red'', Num 3]), (1, [NaN, Num 5]), (2, [Str ''blue'', NaN]),
                     (3, [Str ''red'', Num 8])]\<rparr>"

definition many_rows :: dataframe where
  "many_rows = \<lparr>columns = [(''x'', Number), (''y'', Number)],
                rows = map (\<lambda>i. (i, [Num (of_nat i), Num 1])) [0..<5001]\<rparr>"


definition fives :: dataframe where
  "fives = \<lparr>columns = [(''col'', Object)],
            rows = [(0, [Str ''1'']), (1, [Str ''2'']), (2, [Str ''3'']), (3, [Str ''4'']),
                    (4, [Str ''5''])]\<rparr>"

definition mixed :: dataframe where
  "mixed = \<lparr>columns = [(''col'', Object)],
            rows = [(0, [Str ''1'']), (1, [Str ''2'']), (2, [Str ''x'']), (3, [Str ''4'']),
                    (4, [Str ''5''])]\<rparr>"

definition flags :: dataframe where
  "flags = \<lparr>columns = [(''flag'', Object)],
            rows = [(0, [Flag True]), (1, [Flag False]), (2, [NaN])]\<rparr>"

definition dates :: dataframe where
  "dates = \<lparr>columns = [(''day'', Object), (''n'', Number)],
            rows = [(0, [Str ''2020-01-01'', Num 1]), (1, [Str ''2020-01-02'', Num 2])]\<rparr>"

text \<open>A folder whose sample_data.csv holds the frame \<open>dates\<close>, and that frame as an
  upload not yet read.\<close>

definition demo_files :: file_system where
  "demo_files = (\<lambda>p. if p = ''sample_data.csv'' then Some (Csv dates) else None)"

definition dates_upload :: uploaded where
  "dates_upload = \<lparr>up_name = ''dates.csv'', up_content = Csv dates, up_at_end = False\<rparr>"

text \<open>
  Two parsers to run the examples with, in place of pandas' own: the first reads unsigned
  decimal integers, the second reads dates written YYYY-MM-DD (the stamp is the eight
  digits read as one number). Neither raises.
\<close>

definition digit :: "char \<Rightarrow> bool" where
  "digit ch = (ch \<in> set ''0123456789'')"

definition decimal :: "string \<Rightarrow> nat" where
  "decimal s = fold (\<lambda>ch n. 10 * n + (of_char ch - 48)) s 0"

definition plain_to_numeric :: "string \<Rightarrow> rat coerced" where
  "plain_to_numeric s =
     (if s \<noteq> [] \<and> list_all digit s then Parsed (of_nat (decimal s)) else Unparsed)"

definition iso_to_datetime :: "string \<Rightarrow> int coerced" where
  "iso_to_datetime s =
     (if length s = 10 \<and> list_all digit (take 4 s @ take 2 (drop 5 s) @ drop 8 s) \<and>
         take 1 (drop 4 s) = ''-'' \<and> take 1 (drop 7 s) = ''-''
      then Parsed (int (decimal (take 4 s @ take 2 (drop 5 s) @ drop 8 s)))
      else Unparsed)"

text \<open>The widgets as they stand before the user touches them on a frame whose select
  boxes both show 'None'.\<close>

definition no_widgets :: widgets where
  "no_widgets = \<lparr>cat_filter_col = ''None'', cat_filter_values = [],
                  num_filter_col = ''None'', num_filter_range = (None, None)\<rparr>"

section \<open>Basic facts\<close>

lemma rows_select_rows [simp]: "rows (select_rows keep df) = filter keep (rows df)"
  by (simp add: select_rows_def)

lemma columns_select_rows [simp]: "columns (select_rows keep df) = columns df"
  by (simp add: select_rows_def)

lemma column_names_select_rows [simp]: "column_names (select_rows keep df) = column_names df"
  by (simp add: column_names_def)

lemma set_unique [simp]: "set (unique vs) = set vs"
  by (simp add: unique_def)

lemma distinct_unique [simp]: "distinct (unique vs)"
  by (simp add: unique_def)

lemma unique_distinct: "distinct vs \<Longrightarrow> unique vs = vs"
  by (simp add: unique_def distinct_remdups_id)

lemma unique_Nil_iff [simp]: "unique vs = [] \<longleftrightarrow> vs = []"
  by (simp add: unique_def)

lemma isin_options: "isin (unique (dropna vals)) v \<longleftrightarrow> v \<in> set vals \<and> v \<noteq> NaN"
  by (auto simp: isin_def dropna_def)

lemma getitem_Inr:
  "getitem df c = Inr vals \<Longrightarrow> c \<in> set (column_names df) \<and> vals = series df c"
  by (auto simp: getitem_def split: if_splits)




subsection \<open>What a filtering step can return\<close>

lemma categorical_step_cases:
  assumes "categorical_step df dff c sel = Inr (view, notes)"
  shows "view = dff \<or> view = isin_filter c sel dff"
  using assms
  by (auto simp: categorical_step_def Let_def split: if_splits sum.splits)

lemma numeric_step_cases:
  assumes "numeric_step df dff c rng = Inr (view, notes)"
  shows "view = dff \<or> view = range_filter c rng dff"
  using assms
  by (auto simp: numeric_step_def split: if_splits sum.splits option.splits)

lemma categorical_step_rows:
  assumes "categorical_step df dff c sel = Inr (view, notes)"
  shows "columns view = columns dff \<and> (\<exists>keep. rows view = filter keep (rows dff))"
proof -
  have "\<exists>keep. rows dff = filter keep (rows dff)"
    by (rule exI [of _ "\<lambda>_. True"]) simp
  then show ?thesis
    using categorical_step_cases [OF assms] by (auto simp: isin_filter_def)
qed

lemma numeric_step_rows:
  assumes "numeric_step df dff c rng = Inr (view, notes)"
  shows "columns view = columns dff \<and> (\<exists>keep. rows view = filter keep (rows dff))"
proof -
  have "\<exists>keep. rows dff = filter keep (rows dff)"
    by (rule exI [of _ "\<lambda>_. True"]) simp
  then show ?thesis
    using numeric_step_cases [OF assms] by (auto simp: range_filter_def)
qed

lemma main_filter_steps:
  assumes "main_filter df w = Inr (view, notes)"
  shows "\<exists>d1 n1 n2.
           (d1 = df \<or>
            categorical_step df df (cat_filter_col w) (cat_filter_values w) = Inr (d1, n1)) \<and>
           (view = d1 \<or>
            numeric_step df d1 (num_filter_col w) (num_filter_range w) = Inr (view, n2))"
  using assms
  by (auto simp: main_filter_def Let_def split: prod.splits sum.splits if_splits)

text \<open>The filtering section raises nothing when the select boxes hold one of their
  options: 'None' or a column of the frame.\<close>

lemma categorical_step_total:
  assumes "c = ''None'' \<or> c \<in> set (column_names df)"
  shows "\<exists>view notes. categorical_step df dff c sel = Inr (view, notes)"
proof (cases "c = ''None''")
  case True
  then show ?thesis by (simp add: categorical_step_def)
next
  case False
  with assms have "getitem df c = Inr (series df c)"
    by (simp add: getitem_def)
  with False show ?thesis by (simp add: categorical_step_def Let_def)
qed

lemma numeric_step_total:
  assumes "c = ''None'' \<or> c \<in> set (column_names df)"
  shows "\<exists>view notes. numeric_step df dff c rng = Inr (view, notes)"
proof (cases "c = ''None''")
  case True
  then show ?thesis by (simp add: numeric_step_def)
next
  case False
  with assms have "getitem df c = Inr (series df c)"
    by (simp add: getitem_def)
  with False show ?thesis by (simp add: numeric_step_def split: option.splits)
qed

lemma main_filter_total:
  assumes "cat_filter_col w \<in> set (''None'' # snd (get_column_types df))"
    and "num_filter_col w \<in> set (''None'' # fst (get_column_types df))"
  shows "\<exists>view notes. main_filter df w = Inr (view, notes)"
proof -
  have c: "cat_filter_col w = ''None'' \<or> cat_filter_col w \<in> set (column_names df)"
    using assms(1) by (auto simp: get_column_types_def column_names_def)
  have n: "num_filter_col w = ''None'' \<or> num_filter_col w \<in> set (column_names df)"
    using assms(2) by (auto simp: get_column_types_def column_names_def)
  from categorical_step_total [OF c] obtain d1 n1 where 1:
    "categorical_step df df (cat_filter_col w) (cat_filter_values w) = Inr (d1, n1)"
    by blast
  from numeric_step_total [OF n] obtain d2 n2 where 2:
    "numeric_step df d1 (num_filter_col w) (num_filter_range w) = Inr (d2, n2)"
    by blast
  from numeric_step_total [OF n] obtain d3 n3 where 3:
    "numeric_step df df (num_filter_col w) (num_filter_range w) = Inr (d3, n3)"
    by blast
  show ?thesis
    using 1 2 3 by (simp add: main_filter_def Let_def split: prod.splits)
qed

section \<open>The categorical filter\<close>

lemma getitem_cities: "getitem cities ''city'' = Inr [Str ''Oslo'', NaN]"
  by (simp add: getitem_def series_def cities_def column_names_def cell_of_def)

lemma getitem_towns: "getitem towns ''city'' = Inr [Str ''Oslo'', Str ''Rome'', Str ''Oslo'']"
  by (simp add: getitem_def series_def towns_def column_names_def cell_of_def)

text \<open>
  C1, as stated: a categorical filter whose selection is empty leaves no row. On the
  code this fails: line 276 (\<^verbatim>\<open>if selected_values:\<close>) skips the filter when nothing is
  selected, so the two-row frame \<open>cities\<close> comes back whole.
\<close>

theorem empty_selection_not_empty_view:
  "main_filter cities (no_widgets\<lparr>cat_filter_col := ''city'', cat_filter_values := []\<rparr>)
     = Inr (cities, []) \<and> len cities = 2"
  by (simp add: main_filter_def get_column_types_def categorical_step_def getitem_cities
        no_widgets_def unique_def dropna_def len_def)
     (simp add: cities_def)

text \<open>
  C1, amended: for every frame and every column of it, a categorical filter whose
  selection is empty is not applied: the step raises nothing and hands the view on
  unchanged, every row kept.
\<close>

theorem empty_selection_keeps_every_row:
  "c \<in> set (column_names df) \<Longrightarrow> \<exists>notes. categorical_step df dff c [] = Inr (dff, notes)"
  by (simp add: categorical_step_def getitem_def Let_def)

theorem empty_selection_keeps_every_row_witness:
  "''city'' \<in> set (column_names cities) \<and>
   (\<exists>notes. categorical_step cities cities ''city'' [] = Inr (cities, notes))"
  using empty_selection_keeps_every_row [of "''city''" cities cities]
  by (simp add: column_names_def cities_def)

text \<open>
  C3, as stated: selecting the full set of a column's distinct values gives back the
  unfiltered frame, rows with a missing value in that column included. On the code this
  fails: the multiselect offers \<^verbatim>\<open>dropna().unique()\<close>, and \<^verbatim>\<open>isin\<close> with all of it selected
  drops the row of \<open>cities\<close> whose city is missing.
\<close>

theorem full_selection_loses_null_row:
  "getitem cities ''city'' = Inr [Str ''Oslo'', NaN] \<and>
   unique (dropna [Str ''Oslo'', NaN]) = [Str ''Oslo''] \<and>
   categorical_step cities cities ''city'' [Str ''Oslo'']
     = Inr (cities\<lparr>rows := [(0, [Str ''Oslo''])]\<rparr>, []) \<and>
   cities\<lparr>rows := [(0, [Str ''Oslo''])]\<rparr> \<noteq> cities"
  by (simp add: getitem_cities categorical_step_def unique_def dropna_def isin_filter_def
        select_rows_def isin_def)
     (simp add: cities_def column_names_def cell_of_def)

text \<open>
  C3, amended: for every frame and every column of it, filtering with the full set of the
  column's distinct non-missing values (all that can be selected) keeps, in their order,
  exactly the rows whose value in that column is not missing, provided the column has
  between 1 and 50 distinct values and is not called 'None'; otherwise no filter is
  applied. So the view equals the unfiltered frame, same rows in the same order, whenever
  the column has no missing value.
\<close>

theorem full_selection_drops_only_nulls:
  assumes "getitem df c = Inr vals"
  shows "(\<exists>notes. categorical_step df df c (unique (dropna vals)) =
           Inr (df\<lparr>rows :=
                  if c \<noteq> ''None'' \<and> dropna vals \<noteq> [] \<and> length (unique (dropna vals)) \<le> 50
                  then filter (\<lambda>r. cell_of (column_names df) c r \<noteq> NaN) (rows df)
                  else rows df\<rparr>, notes)) \<and>
         (NaN \<notin> set vals \<longrightarrow>
           (\<exists>notes. categorical_step df df c (unique (dropna vals)) = Inr (df, notes)))"
proof -
  have vals: "vals = map (cell_of (column_names df) c) (rows df)"
    using getitem_Inr [OF assms] by (simp add: series_def)
  have keep: "filter (\<lambda>r. isin (unique (dropna vals)) (cell_of (column_names df) c r)) (rows df)
              = filter (\<lambda>r. cell_of (column_names df) c r \<noteq> NaN) (rows df)"
    by (rule filter_cong) (auto simp: isin_options vals)
  have 1: "\<exists>notes. categorical_step df df c (unique (dropna vals)) =
           Inr (df\<lparr>rows :=
                  if c \<noteq> ''None'' \<and> dropna vals \<noteq> [] \<and> length (unique (dropna vals)) \<le> 50
                  then filter (\<lambda>r. cell_of (column_names df) c r \<noteq> NaN) (rows df)
                  else rows df\<rparr>, notes)"
    using assms keep by (simp add: categorical_step_def Let_def isin_filter_def select_rows_def)
  have 2: "\<exists>notes. categorical_step df df c (unique (dropna vals)) = Inr (df, notes)"
    if "NaN \<notin> set vals"
  proof -
    from that have "filter (\<lambda>r. cell_of (column_names df) c r \<noteq> NaN) (rows df) = rows df"
      unfolding vals filter_id_conv by (metis (no_types, lifting) image_eqI set_map)
    with 1 show ?thesis by (simp split: if_splits)
  qed
  from 1 2 show ?thesis by blast
qed

theorem full_selection_drops_only_nulls_witness:
  "getitem towns ''city'' = Inr [Str ''Oslo'', Str ''Rome'', Str ''Oslo''] \<and>
   unique (dropna [Str ''Oslo'', Str ''Rome'', Str ''Oslo'']) = [Str ''Oslo'', Str ''Rome''] \<and>
   (\<exists>notes. categorical_step towns towns ''city'' [Str ''Oslo'', Str ''Rome'']
              = Inr (towns, notes))"
proof -
  have u: "unique (dropna [Str ''Oslo'', Str ''Rome'', Str ''Oslo'']) = [Str ''Oslo'', Str ''Rome'']"
    by (simp add: unique_def dropna_def)
  show ?thesis
    using full_selection_drops_only_nulls [OF getitem_towns] getitem_towns u by simp
qed

text \<open>
  C10: when the chosen categorical column has more than 50 distinct non-missing values,
  no categorical filter is applied, whatever the selection: the step hands the view on
  unchanged and prints one note that names the column and the number of values.
\<close>

theorem too_many_unique_no_filter:
  assumes "getitem df c = Inr vals" and "c \<noteq> ''None''"
    and "50 < length (unique (dropna vals))"
  shows "categorical_step df dff c selected =
           Inr (dff, [Info_too_many_unique c (length (unique (dropna vals)))])"
  using assms by (simp add: categorical_step_def Let_def)

lemma getitem_stamps: "getitem stamps ''when'' = Inr (map (\<lambda>i. Stamp (int i)) [0..<51])"
  by (simp add: getitem_def series_def stamps_def column_names_def cell_of_def)

lemma unique_stamps:
  "unique (dropna (map (\<lambda>i. Stamp (int i)) [0..<51])) = map (\<lambda>i. Stamp (int i)) [0..<51]"
proof -
  have "dropna (map (\<lambda>i. Stamp (int i)) [0..<51]) = map (\<lambda>i. Stamp (int i)) [0..<51]"
    unfolding dropna_def filter_id_conv by auto
  moreover have "distinct (map (\<lambda>i. Stamp (int i)) [0..<51])"
    by (simp add: distinct_map inj_on_def)
  ultimately show ?thesis by (simp add: unique_distinct)
qed

theorem too_many_unique_no_filter_witness:
  "getitem stamps ''when'' = Inr (map (\<lambda>i. Stamp (int i)) [0..<51]) \<and>
   length (unique (dropna (map (\<lambda>i. Stamp (int i)) [0..<51]))) = 51 \<and>
   categorical_step stamps stamps ''when'' [Stamp 0]
     = Inr (stamps, [Info_too_many_unique ''when'' 51])"
proof -
  have n: "''when'' \<noteq> ''None''" by simp
  have l: "50 < length (unique (dropna (map (\<lambda>i. Stamp (int i)) [0..<51])))"
    by (simp add: unique_stamps)
  show ?thesis
    using too_many_unique_no_filter [OF getitem_stamps n l, of stamps "[Stamp 0]"] getitem_stamps
    by (simp add: unique_stamps)
qed

section \<open>Missing values and the two filters\<close>







section \<open>The numeric range filter on a constant column\<close>

text \<open>
  C7: when the minimum of the chosen numeric column equals its maximum, no range filter is
  built: the step is not an error, it hands the view on unchanged whatever the slider
  holds, and it prints one note naming the column and the single value (for the values
  10, 10, 10: 'All values in 'x' are 10.0').
\<close>

theorem constant_column_not_filtered:
  assumes "getitem df c = Inr vals" and "c \<noteq> ''None''"
    and "series_min vals = Some m" and "series_max vals = Some m"
  shows "numeric_step df dff c range_values = Inr (dff, [Info_all_values c m])"
  using assms by (simp add: numeric_step_def)

lemma getitem_tens: "getitem tens ''x'' = Inr [Num 10, Num 10, Num 10]"
  by (simp add: getitem_def series_def tens_def column_names_def cell_of_def)

theorem constant_column_not_filtered_witness:
  "getitem tens ''x'' = Inr [Num 10, Num 10, Num 10] \<and>
   series_min [Num 10, Num 10, Num 10] = Some 10 \<and>
   series_max [Num 10, Num 10, Num 10] = Some 10 \<and>
   numeric_step tens tens ''x'' (Some 10, Some 10) = Inr (tens, [Info_all_values ''x'' 10])"
proof -
  have mn: "series_min [Num 10, Num 10, Num 10] = Some 10"
    by (simp add: series_min_def numbers_def)
  have mx: "series_max [Num 10, Num 10, Num 10] = Some 10"
    by (simp add: series_max_def numbers_def)
  have nm: "''x'' \<noteq> ''None''" by simp
  show ?thesis
    using constant_column_not_filtered [OF getitem_tens nm mn mx, of tens "(Some 10, Some 10)"]
      getitem_tens mn mx by simp
qed

section \<open>Row order of the view\<close>

text \<open>
  C9: whatever the widgets hold, when the filtering section returns a view, its rows are
  the rows of the source frame that pass some test, in source order and with their index
  labels: a subsequence of the source rows, over the same columns.
\<close>

theorem main_filter_preserves_order:
  assumes "main_filter df w = Inr (view, notes)"
  shows "subseq (rows view) (rows df) \<and> columns view = columns df \<and>
         (\<exists>keep. rows view = filter keep (rows df))"
proof -
  from main_filter_steps [OF assms] obtain d1 n1 n2 where
    c1: "d1 = df \<or>
         categorical_step df df (cat_filter_col w) (cat_filter_values w) = Inr (d1, n1)"
    and c2: "view = d1 \<or>
         numeric_step df d1 (num_filter_col w) (num_filter_range w) = Inr (view, n2)"
    by blast
  have t: "\<And>d. rows d = filter (\<lambda>_. True) (rows d)" by simp
  from c1 obtain k1 where k1: "rows d1 = filter k1 (rows df)" "columns d1 = columns df"
    using categorical_step_rows t by blast
  from c2 obtain k2 where k2: "rows view = filter k2 (rows d1)" "columns view = columns d1"
    using numeric_step_rows t by blast
  have "rows view = filter (\<lambda>r. k1 r \<and> k2 r) (rows df)"
    using k1 k2 by (simp add: conj_commute)
  then show ?thesis using k1 k2 by (auto simp del: filter_filter)
qed

lemma main_filter_scores:
  "main_filter scores \<lparr>cat_filter_col = ''team'', cat_filter_values = [Str ''red''],
                        num_filter_col = ''score'', num_filter_range = (Some 4, Some 8)\<rparr>
   = Inr (scores\<lparr>rows := [(3, [Str ''red'', Num 8])]\<rparr>, [])"
  by (simp add: main_filter_def get_column_types_def categorical_step_def numeric_step_def
      getitem_def series_def column_names_def cell_of_def unique_def dropna_def isin_filter_def
      range_filter_def select_rows_def isin_def cell_ge_def cell_le_def series_min_def
      series_max_def numbers_def scores_def)

theorem main_filter_preserves_order_witness:
  "main_filter scores \<lparr>cat_filter_col = ''team'', cat_filter_values = [Str ''red''],
                        num_filter_col = ''score'', num_filter_range = (Some 4, Some 8)\<rparr>
   = Inr (scores\<lparr>rows := [(3, [Str ''red'', Num 8])]\<rparr>, []) \<and>
   subseq [(3, [Str ''red'', Num 8])] (rows scores)"
  using main_filter_preserves_order [OF main_filter_scores] main_filter_scores by simp

section \<open>Sampling\<close>

text \<open>
  C8: a view of at most 5000 rows is plotted as it is. A larger view is replaced by the
  draw of 5000 of its rows made with the generator seeded with 42, over the same columns;
  given that numpy's draw of 5000 from at least 5000 rows returns 5000 of them without
  replacement, the sample has exactly 5000 rows, all rows of the view, none more often
  than the view has it. The sample does not depend on the state of the global generator:
  whatever was drawn before, the same view gives the same sample.
\<close>

theorem scatter_sample_bound:
  assumes "\<And>g xs. 5000 \<le> length xs \<Longrightarrow>
             length (draw g 5000 xs) = 5000 \<and> mset (draw g 5000 xs) \<subseteq># mset xs"
  shows "(len view \<le> 5000 \<longrightarrow> scatter_sample seed draw global view = view) \<and>
         (5000 < len view \<longrightarrow>
            rows (scatter_sample seed draw global view) = draw (seed 42) 5000 (rows view) \<and>
            columns (scatter_sample seed draw global view) = columns view \<and>
            len (scatter_sample seed draw global view) = 5000 \<and>
            mset (rows (scatter_sample seed draw global view)) \<subseteq># mset (rows view)) \<and>
         scatter_sample seed draw global view = scatter_sample seed draw global' view"
  using assms [of "rows view" "seed 42"]
  by (auto simp: scatter_sample_def sample_def len_def)

lemma mset_rotate: "mset (rotate n xs) = mset xs"
  by (metis append_take_drop_id mset_append rotate_drop_take union_commute)

theorem scatter_sample_bound_witness:
  "len many_rows = 5001 \<and>
   rows (scatter_sample (\<lambda>k. k) (\<lambda>g n xs. take n (rotate g xs)) 7 many_rows)
     = take 5000 (rotate 42 (rows many_rows)) \<and>
   len (scatter_sample (\<lambda>k. k) (\<lambda>g n xs. take n (rotate g xs)) 7 many_rows) = 5000 \<and>
   scatter_sample (\<lambda>k. k) (\<lambda>g n xs. take n (rotate g xs)) 7 many_rows
     = scatter_sample (\<lambda>k. k) (\<lambda>g n xs. take n (rotate g xs)) 9 many_rows \<and>
   len tens = 3 \<and>
   scatter_sample (\<lambda>k. k) (\<lambda>g n xs. take n (rotate g xs)) 7 tens = tens"
proof -
  have c: "\<And>(g::nat) xs :: row list. 5000 \<le> length xs \<Longrightarrow>
             length (take 5000 (rotate g xs)) = 5000 \<and>
             mset (take 5000 (rotate g xs)) \<subseteq># mset xs"
  proof -
    fix g :: nat and xs :: "row list"
    assume "5000 \<le> length xs"
    then have "length (take 5000 (rotate g xs)) = 5000" by simp
    moreover have "mset (take 5000 (rotate g xs))
                     \<subseteq># mset (take 5000 (rotate g xs)) + mset (drop 5000 (rotate g xs))"
      by simp
    then have "mset (take 5000 (rotate g xs)) \<subseteq># mset (rotate g xs)"
      by (metis append_take_drop_id mset_append)
    ultimately show "length (take 5000 (rotate g xs)) = 5000 \<and>
             mset (take 5000 (rotate g xs)) \<subseteq># mset xs"
      by (simp add: mset_rotate)
  qed
  have l: "len many_rows = 5001" by (simp add: len_def many_rows_def)
  have t: "len tens = 3" by (simp add: len_def tens_def)
  let ?seed = "\<lambda>k::nat. k" and ?draw = "\<lambda>(g::nat) n (xs::row list). take n (rotate g xs)"
  have m: "(len many_rows \<le> 5000 \<longrightarrow> scatter_sample ?seed ?draw 7 many_rows = many_rows) \<and>
         (5000 < len many_rows \<longrightarrow>
            rows (scatter_sample ?seed ?draw 7 many_rows)
              = ?draw (?seed 42) 5000 (rows many_rows) \<and>
            columns (scatter_sample ?seed ?draw 7 many_rows) = columns many_rows \<and>
            len (scatter_sample ?seed ?draw 7 many_rows) = 5000 \<and>
            mset (rows (scatter_sample ?seed ?draw 7 many_rows)) \<subseteq># mset (rows many_rows)) \<and>
         scatter_sample ?seed ?draw 7 many_rows = scatter_sample ?seed ?draw 9 many_rows"
    by (rule scatter_sample_bound) (rule c)
  have s: "(len tens \<le> 5000 \<longrightarrow> scatter_sample ?seed ?draw 7 tens = tens) \<and>
         (5000 < len tens \<longrightarrow>
            rows (scatter_sample ?seed ?draw 7 tens) = ?draw (?seed 42) 5000 (rows tens) \<and>
            columns (scatter_sample ?seed ?draw 7 tens) = columns tens \<and>
            len (scatter_sample ?seed ?draw 7 tens) = 5000 \<and>
            mset (rows (scatter_sample ?seed ?draw 7 tens)) \<subseteq># mset (rows tens)) \<and>
         scatter_sample ?seed ?draw 7 tens = scatter_sample ?seed ?draw 9 tens"
    by (rule scatter_sample_bound) (rule c)
  have big: "5000 < len many_rows" using l by simp
  have small: "len tens \<le> 5000" using t by simp
  note m2 = m [THEN conjunct2, THEN conjunct1, rule_format, OF big]
  show ?thesis
    by (intro conjI)
       (rule l, rule m2 [THEN conjunct1],
        rule m2 [THEN conjunct2, THEN conjunct2, THEN conjunct1],
        rule m [THEN conjunct2, THEN conjunct2], rule t,
        rule s [THEN conjunct1, rule_format, OF small])
qed

section \<open>The missing-value report\<close>



lemma mset_sort_values_desc [simp]: "mset (sort_values_desc given) = mset given"
  by (simp add: sort_values_desc_def)

lemma set_sort_values_desc [simp]: "set (sort_values_desc given) = set given"
  by (simp add: sort_values_desc_def)




lemma bitlen_numeral [simp]:
  "bitlen 0 = 0"
  "bitlen (Suc 0) = Suc 0"
  "bitlen (numeral n) = Suc (bitlen (numeral n div 2))"
  by (simp_all add: bitlen.simps [of 0] bitlen.simps [of "Suc 0"] bitlen.simps [of "numeral n"])











section \<open>Type inference\<close>

subsection \<open>Assigning a column\<close>

lemma column_names_setitem [simp]: "column_names (setitem d c t f) = column_names d"
  by (auto simp: setitem_def column_names_def)

lemma len_setitem [simp]: "len (setitem d c t f) = len d"
  by (simp add: setitem_def len_def)

lemma map_of_zip_update:
  "map_of (zip names (map (\<lambda>(n, v). if n = c then f v else v) (zip names cells))) c'
     = map_option (\<lambda>v. if c' = c then f v else v) (map_of (zip names cells) c')"
proof (induction names arbitrary: cells)
  case Nil
  then show ?case by simp
next
  case (Cons n names)
  then show ?case by (cases cells) auto
qed

lemma cell_of_update:
  assumes "f NaN = NaN"
  shows "cell_of names c' (i, map (\<lambda>(n, v). if n = c then f v else v) (zip names cells))
     = (if c' = c then f (cell_of names c' (i, cells)) else cell_of names c' (i, cells))"
  using assms by (simp add: cell_of_def map_of_zip_update split: option.splits)

lemma series_setitem:
  assumes "f NaN = NaN"
  shows "series (setitem d c t f) c' = (if c' = c then map f (series d c) else series d c')"
proof -
  have "rows (setitem d c t f)
        = map (\<lambda>(i, cells). (i, map (\<lambda>(n, v). if n = c then f v else v)
                                   (zip (column_names d) cells))) (rows d)"
    by (simp add: setitem_def)
  then show ?thesis
    using cell_of_update [of f, OF assms]
    by (auto simp: series_def split_def)
qed

lemma dtype_of_setitem:
  "dtype_of (setitem d c t f) c'
     = (if c' = c then map_option (\<lambda>_. t) (dtype_of d c) else dtype_of d c')"
proof -
  have "map_of (map (\<lambda>(n, t0). if n = c then (n, t) else (n, t0)) cols) c'
        = (if c' = c then map_option (\<lambda>_. t) (map_of cols c) else map_of cols c')" for cols
    by (induction cols) auto
  then show ?thesis by (simp add: dtype_of_def setitem_def)
qed

lemma numeric_cell_NaN [simp]: "numeric_cell tn NaN = NaN"
  by (simp add: numeric_cell_def)

lemma datetime_cell_NaN [simp]: "datetime_cell td NaN = NaN"
  by (simp add: datetime_cell_def)

lemma isnull_sum_le: "isnull_sum vals \<le> length vals"
  by (simp add: isnull_sum_def)

lemma length_series [simp]: "length (series d c) = len d"
  by (simp add: series_def len_def)

lemma notna_sum_map_le:
  assumes "f NaN = NaN"
  shows "notna_sum (map f vals) \<le> notna_sum vals"
proof (induction vals)
  case Nil
  then show ?case by (simp add: notna_sum_def)
next
  case (Cons v vals)
  then show ?case using assms by (cases "v = NaN") (auto simp: notna_sum_def)
qed

lemma ratio_gt_spec:
  assumes "a \<le> b" and "0 \<le> t"
  shows "ratio_gt a b t \<longleftrightarrow> t < spec_ratio a b"
  using assms by (auto simp: ratio_gt_def spec_ratio_def)

lemma not_raises: "(\<And>s. parse s \<noteq> Raised) \<Longrightarrow> \<not> raises parse vals"
  by (auto simp: raises_def split: cell.splits)


lemma convert_column_step:
  assumes "\<And>s. tn s \<noteq> Raised" and "\<And>s. td s \<noteq> Raised"
  shows "convert_column tn td c (d, changes) =
           (case spec_verdict tn td (len d) (series d c) of
              To_numeric \<Rightarrow> (setitem d c Number (numeric_cell tn), changes @ log_lines c To_numeric)
            | To_datetime \<Rightarrow> (setitem d c Datetime64 (datetime_cell td), changes @ log_lines c To_datetime)
            | _ \<Rightarrow> (d, changes))"
proof -
  have 1: "ratio_gt (isnull_sum (series d c)) (len d) (1 / 2)
             \<longleftrightarrow> 1 / 2 < spec_ratio (isnull_sum (series d c)) (len d)"
    using isnull_sum_le [of "series d c"] by (simp add: ratio_gt_spec)
  have 2: "ratio_gt (notna_sum (map (numeric_cell tn) (series d c))) (notna_sum (series d c)) (9 / 10)
             \<longleftrightarrow> 9 / 10 < spec_ratio (notna_sum (map (numeric_cell tn) (series d c)))
                                  (notna_sum (series d c))"
    by (simp add: ratio_gt_spec notna_sum_map_le)
  have 3: "ratio_gt (notna_sum (map (datetime_cell td) (series d c))) (notna_sum (series d c)) (9 / 10)
             \<longleftrightarrow> 9 / 10 < spec_ratio (notna_sum (map (datetime_cell td) (series d c)))
                                  (notna_sum (series d c))"
    by (simp add: ratio_gt_spec notna_sum_map_le)
  show ?thesis
    unfolding convert_column_def spec_verdict_def
    by (simp only: 1 2 3 not_raises [OF assms(1)] not_raises [OF assms(2)] Let_def prod.case
          simp_thms if_True if_False log_lines_def verdict.case split: if_split)
       simp
qed

lemma converted_dtype_simps:
  "converted_dtype To_numeric = (\<lambda>_. Number)"
  "converted_dtype To_datetime = (\<lambda>_. Datetime64)"
  "converted_dtype Skipped = (\<lambda>t. t)"
  "converted_dtype Stays_text = (\<lambda>t. t)"
  by (auto simp: converted_dtype_def fun_eq_iff)

lemma convert_column_effect:
  assumes "\<And>s. tn s \<noteq> Raised" and "\<And>s. td s \<noteq> Raised"
    and "convert_column tn td c (d, changes) = (d1, changes1)"
  shows "changes1 = changes @ log_lines c (spec_verdict tn td (len d) (series d c)) \<and>
         column_names d1 = column_names d \<and> len d1 = len d \<and>
         (\<forall>c'. series d1 c' =
                 (if c' = c
                  then converted_values tn td (spec_verdict tn td (len d) (series d c)) (series d c)
                  else series d c')) \<and>
         (\<forall>c'. dtype_of d1 c' =
                 (if c' = c
                  then map_option (converted_dtype (spec_verdict tn td (len d) (series d c)))
                         (dtype_of d c)
                  else dtype_of d c'))"
proof (cases "spec_verdict tn td (len d) (series d c)")
  case To_numeric
  then have "d1 = setitem d c Number (numeric_cell tn)" "changes1 = changes @ log_lines c To_numeric"
    using assms(3) convert_column_step [OF assms(1,2)] by simp_all
  then show ?thesis
    using To_numeric
    by (simp add: series_setitem dtype_of_setitem converted_values_def converted_dtype_simps)
next
  case To_datetime
  then have "d1 = setitem d c Datetime64 (datetime_cell td)" "changes1 = changes @ log_lines c To_datetime"
    using assms(3) convert_column_step [OF assms(1,2)] by simp_all
  then show ?thesis
    using To_datetime
    by (simp add: series_setitem dtype_of_setitem converted_values_def converted_dtype_simps)
next
  case Skipped
  then have "d1 = d" "changes1 = changes"
    using assms(3) convert_column_step [OF assms(1,2)] by simp_all
  then show ?thesis
    using Skipped
    by (simp add: converted_values_def converted_dtype_simps log_lines_def option.map_ident)
next
  case Stays_text
  then have "d1 = d" "changes1 = changes"
    using assms(3) convert_column_step [OF assms(1,2)] by simp_all
  then show ?thesis
    using Stays_text
    by (simp add: converted_values_def converted_dtype_simps log_lines_def option.map_ident)
qed


lemma fold_convert_column:
  assumes "\<And>s. tn s \<noteq> Raised" and "\<And>s. td s \<noteq> Raised"
  shows "distinct cs \<Longrightarrow> fold (convert_column tn td) cs (d, changes) = (d', changes') \<Longrightarrow>
         changes' = changes @
           concat (map (\<lambda>c. log_lines c (spec_verdict tn td (len d) (series d c))) cs) \<and>
         column_names d' = column_names d \<and> len d' = len d \<and>
         (\<forall>c. series d' c =
                 (if c \<in> set cs
                  then converted_values tn td (spec_verdict tn td (len d) (series d c)) (series d c)
                  else series d c)) \<and>
         (\<forall>c. dtype_of d' c =
                 (if c \<in> set cs
                  then map_option (converted_dtype (spec_verdict tn td (len d) (series d c)))
                         (dtype_of d c)
                  else dtype_of d c))"
proof (induction cs arbitrary: d changes)
  case Nil
  then show ?case by simp
next
  case (Cons c cs)
  obtain d1 changes1 where step: "convert_column tn td c (d, changes) = (d1, changes1)"
    by (cases "convert_column tn td c (d, changes)")
  note e = convert_column_effect [OF assms step]
  from Cons.prems have dist: "distinct cs" and notin: "c \<notin> set cs" by simp_all
  from Cons.prems(2) step
  have "fold (convert_column tn td) cs (d1, changes1) = (d', changes')" by simp
  note ih = Cons.IH [OF dist this]
  have same: "spec_verdict tn td (len d1) (series d1 x) = spec_verdict tn td (len d) (series d x)"
    if "x \<in> set cs" for x
    using e that notin by auto
  have logs: "map (\<lambda>x. log_lines x (spec_verdict tn td (len d1) (series d1 x))) cs
              = map (\<lambda>x. log_lines x (spec_verdict tn td (len d) (series d x))) cs"
    using same by simp
  show ?case
  proof (intro conjI allI)
    have "changes' = changes1 @
            concat (map (\<lambda>x. log_lines x (spec_verdict tn td (len d1) (series d1 x))) cs)"
      using ih by (rule conjunct1)
    also have "\<dots> = changes1 @
            concat (map (\<lambda>x. log_lines x (spec_verdict tn td (len d) (series d x))) cs)"
      by (simp only: logs)
    also have "changes1 = changes @ log_lines c (spec_verdict tn td (len d) (series d c))"
      using e by (rule conjunct1)
    finally show "changes' = changes @
           concat (map (\<lambda>c. log_lines c (spec_verdict tn td (len d) (series d c))) (c # cs))"
      by simp
    show "column_names d' = column_names d" using ih e by simp
    show "len d' = len d" using ih e by simp
    show "series d' x =
            (if x \<in> set (c # cs)
             then converted_values tn td (spec_verdict tn td (len d) (series d x)) (series d x)
             else series d x)" for x
      using ih e same [of x] notin by auto
    show "dtype_of d' x =
            (if x \<in> set (c # cs)
             then map_option (converted_dtype (spec_verdict tn td (len d) (series d x)))
                    (dtype_of d x)
             else dtype_of d x)" for x
      using ih e same [of x] notin by auto
  qed
qed


subsection \<open>The specification's examples\<close>

lemma distinct_object_columns: "distinct (column_names df) \<Longrightarrow> distinct (object_columns df)"
  unfolding column_names_def object_columns_def by (rule distinct_map_filter)

lemma dtype_of_object_column:
  assumes "distinct (column_names df)" and "c \<in> set (object_columns df)"
  shows "dtype_of df c = Some Object"
proof -
  from assms(2) have "(c, Object) \<in> set (columns df)"
    by (auto simp: object_columns_def)
  with assms(1) show ?thesis
    by (simp add: dtype_of_def column_names_def)
qed

lemma five_parsed:
  assumes "\<forall>s \<in> set [''1'', ''2'', ''3'', ''4'', ''5'']. \<exists>x. tn s = Parsed x"
  shows "spec_verdict tn td 5 (map Str [''1'', ''2'', ''3'', ''4'', ''5'']) = To_numeric"
proof -
  have "numeric_cell tn (Str s) \<noteq> NaN" if "s \<in> set [''1'', ''2'', ''3'', ''4'', ''5'']" for s
    using assms that by (auto simp: numeric_cell_def)
  then have "notna_sum (map (numeric_cell tn) (map Str [''1'', ''2'', ''3'', ''4'', ''5''])) = 5"
    by (simp add: notna_sum_def)
  then show ?thesis
    by (simp add: spec_verdict_def spec_ratio_def isnull_sum_def notna_sum_def)
qed

lemma notna_sum_five:
  assumes "f (Str ''x'') = NaN"
  shows "notna_sum (map f (map Str [''1'', ''2'', ''x'', ''4'', ''5''])) \<le> 4"
  using assms by (simp add: notna_sum_def)

lemma one_unparsed:
  assumes "\<forall>x. tn ''x'' \<noteq> Parsed x" and "\<forall>t. td ''x'' \<noteq> Parsed t"
  shows "spec_verdict tn td 5 (map Str [''1'', ''2'', ''x'', ''4'', ''5'']) = Stays_text"
proof -
  have n: "numeric_cell tn (Str ''x'') = NaN"
    using assms(1) by (cases "tn ''x''") (simp_all add: numeric_cell_def)
  have d: "datetime_cell td (Str ''x'') = NaN"
    using assms(2) by (cases "td ''x''") (simp_all add: datetime_cell_def)
  have a: "notna_sum (map Str [''1'', ''2'', ''x'', ''4'', ''5'']) = 5"
    by (simp add: notna_sum_def)
  have r: "\<not> 9 / 10 < spec_ratio k 5" if "k \<le> 4" for k
  proof -
    have "(of_nat k :: rat) \<le> 4" using that by (metis of_nat_le_iff of_nat_numeral)
    then show ?thesis by (simp add: spec_ratio_def)
  qed
  have i: "isnull_sum (map Str [''1'', ''2'', ''x'', ''4'', ''5'']) = 0"
    by (simp add: isnull_sum_def)
  have s0: "\<not> 1 / 2 < spec_ratio 0 5"
    by (simp add: spec_ratio_def)
  note rn = r [OF notna_sum_five [of "numeric_cell tn", OF n]]
  note rd = r [OF notna_sum_five [of "datetime_cell td", OF d]]
  show ?thesis
    unfolding spec_verdict_def a i by (simp only: s0 rn rd if_False)
qed


subsection \<open>The examples run\<close>

lemmas conv_defs = attempt_type_conversion_def object_columns_def convert_column_def series_def
  column_names_def cell_of_def ratio_gt_def isnull_sum_def notna_sum_def len_def raises_def
  numeric_cell_def datetime_cell_def setitem_def plain_to_numeric_def iso_to_datetime_def
  digit_def decimal_def

lemma conv_fives:
  "attempt_type_conversion plain_to_numeric iso_to_datetime fives =
     (\<lparr>columns = [(''col'', Number)],
       rows = [(0, [Num 1]), (1, [Num 2]), (2, [Num 3]), (3, [Num 4]), (4, [Num 5])]\<rparr>,
      [change_line ''col'' ''numeric''])"
  by (simp add: conv_defs fives_def)

lemma conv_mixed:
  "attempt_type_conversion plain_to_numeric iso_to_datetime mixed = (mixed, [])"
  by (simp add: conv_defs mixed_def)

lemma conv_flags:
  "attempt_type_conversion plain_to_numeric iso_to_datetime flags =
     (\<lparr>columns = [(''flag'', Number)], rows = [(0, [Num 1]), (1, [Num 0]), (2, [NaN])]\<rparr>,
      [change_line ''flag'' ''numeric''])"
  by (simp add: conv_defs flags_def)

lemma conv_dates:
  "attempt_type_conversion plain_to_numeric iso_to_datetime dates =
     (\<lparr>columns = [(''day'', Datetime64), (''n'', Number)],
       rows = [(0, [Stamp 20200101, Num 1]), (1, [Stamp 20200102, Num 2])]\<rparr>,
      [change_line ''day'' ''datetime''])"
  by (simp add: conv_defs dates_def)


text \<open>
  C5, as stated: an accepted conversion is recorded as the column name, an arrow and the
  kind. On the code this fails: lines 91 and 101 put the column name between single
  quotes, so for the column col of \<open>fives\<close> the line recorded is not
  'col', arrow, 'numeric' without quotes.
\<close>

theorem change_line_is_quoted:
  "snd (attempt_type_conversion plain_to_numeric iso_to_datetime fives)
     = [change_line ''col'' ''numeric''] \<and>
   change_line ''col'' ''numeric'' = [CHR 0x27] @ ''col'' @ [CHR 0x27] @ '' '' @ arrow @ '' numeric'' \<and>
   change_line ''col'' ''numeric'' \<noteq> ''col'' @ '' '' @ arrow @ '' numeric''"
  by (simp add: conv_fives change_line_def)

text \<open>
  C5, amended: the thresholds are as claimed and the log lines carry the column name in
  single quotes. For a frame with distinct column names whose object columns are as
  \<^verbatim>\<open>read_csv\<close> leaves them (strings and blanks, or booleans and blanks, a boolean parsing
  as 1 or 0), and parsers that do not raise,
  \<^verbatim>\<open>attempt_type_conversion\<close> decides every text column as the specification words it
  (\<open>spec_verdict\<close>): skipped when nulls / rows exceeds 0.5; else numeric exactly when
  parsed / non-null exceeds 0.9; else datetime under the same rule; else left as text. The
  column's values and dtype follow the verdict, the other columns and the row count are
  untouched, and the change log is, in column order, one quoted line per converted column
  and nothing for the others. The values 1, 2, 3, 4, 5 are converted to numeric when the
  parser reads them all; 1, 2, x, 4, 5 stay text when no parser reads x.
\<close>

theorem type_inference_thresholds:
  assumes "distinct (column_names df)"
    and "\<And>s. tn s \<noteq> Raised" and "\<And>s. td s \<noteq> Raised"
    and "\<And>c. c \<in> set (object_columns df) \<Longrightarrow> read_csv_object (series df c)"
  shows
   "snd (attempt_type_conversion tn td df) =
      concat (map (\<lambda>c. log_lines c (spec_verdict tn td (len df) (series df c)))
                (object_columns df)) \<and>
    column_names (fst (attempt_type_conversion tn td df)) = column_names df \<and>
    len (fst (attempt_type_conversion tn td df)) = len df \<and>
    (\<forall>c \<in> set (object_columns df).
       series (fst (attempt_type_conversion tn td df)) c =
         converted_values tn td (spec_verdict tn td (len df) (series df c)) (series df c) \<and>
       dtype_of (fst (attempt_type_conversion tn td df)) c =
         Some (converted_dtype (spec_verdict tn td (len df) (series df c)) Object)) \<and>
    (\<forall>c. c \<notin> set (object_columns df) \<longrightarrow>
       series (fst (attempt_type_conversion tn td df)) c = series df c \<and>
       dtype_of (fst (attempt_type_conversion tn td df)) c = dtype_of df c) \<and>
    ((\<forall>s \<in> set [''1'', ''2'', ''3'', ''4'', ''5'']. \<exists>x. tn s = Parsed x) \<longrightarrow>
       spec_verdict tn td 5 (map Str [''1'', ''2'', ''3'', ''4'', ''5'']) = To_numeric) \<and>
    ((\<forall>x. tn ''x'' \<noteq> Parsed x) \<and> (\<forall>t. td ''x'' \<noteq> Parsed t) \<longrightarrow>
       spec_verdict tn td 5 (map Str [''1'', ''2'', ''x'', ''4'', ''5'']) = Stays_text)"
proof -
  obtain d' changes' where r: "attempt_type_conversion tn td df = (d', changes')"
    by (cases "attempt_type_conversion tn td df")
  then have f: "fold (convert_column tn td) (object_columns df) (df, []) = (d', changes')"
    by (simp add: attempt_type_conversion_def)
  note e = fold_convert_column [OF assms(2,3) distinct_object_columns [OF assms(1)] f]
  have 1: "changes' = concat (map (\<lambda>c. log_lines c (spec_verdict tn td (len df) (series df c)))
                (object_columns df))"
    using e by simp
  have 2: "column_names d' = column_names df" "len d' = len df"
    using e by simp_all
  have 3: "series d' c =
         converted_values tn td (spec_verdict tn td (len df) (series df c)) (series df c) \<and>
       dtype_of d' c =
         Some (converted_dtype (spec_verdict tn td (len df) (series df c)) Object)"
    if "c \<in> set (object_columns df)" for c
    using e that dtype_of_object_column [OF assms(1) that] by simp
  have 4: "series d' c = series df c \<and> dtype_of d' c = dtype_of df c"
    if "c \<notin> set (object_columns df)" for c
    using e that by simp
  show ?thesis
    unfolding r fst_conv snd_conv
    using 1 2 3 4 five_parsed one_unparsed by blast
qed


theorem type_inference_thresholds_witness:
  "distinct (column_names fives) \<and> object_columns fives = [''col''] \<and>
   read_csv_object (series fives ''col'') \<and>
   snd (attempt_type_conversion plain_to_numeric iso_to_datetime fives) =
      concat (map (\<lambda>c. log_lines c (spec_verdict plain_to_numeric iso_to_datetime (len fives)
                                       (series fives c)))
                (object_columns fives)) \<and>
   attempt_type_conversion plain_to_numeric iso_to_datetime fives =
     (\<lparr>columns = [(''col'', Number)],
       rows = [(0, [Num 1]), (1, [Num 2]), (2, [Num 3]), (3, [Num 4]), (4, [Num 5])]\<rparr>,
      [change_line ''col'' ''numeric'']) \<and>
   attempt_type_conversion plain_to_numeric iso_to_datetime mixed = (mixed, []) \<and>
   attempt_type_conversion plain_to_numeric iso_to_datetime flags =
     (\<lparr>columns = [(''flag'', Number)], rows = [(0, [Num 1]), (1, [Num 0]), (2, [NaN])]\<rparr>,
      [change_line ''flag'' ''numeric'']) \<and>
   attempt_type_conversion plain_to_numeric iso_to_datetime dates =
     (\<lparr>columns = [(''day'', Datetime64), (''n'', Number)],
       rows = [(0, [Stamp 20200101, Num 1]), (1, [Stamp 20200102, Num 2])]\<rparr>,
      [change_line ''day'' ''datetime''])"
proof -
  have d: "distinct (column_names fives)"
    by (simp add: column_names_def fives_def)
  have o: "object_columns fives = [''col'']"
    by (simp add: object_columns_def fives_def)
  have c: "read_csv_object (series fives ''col'')"
    by (simp add: read_csv_object_def series_def fives_def column_names_def cell_of_def)
  have r1: "\<And>s. plain_to_numeric s \<noteq> Raised"
    by (simp add: plain_to_numeric_def)
  have r2: "\<And>s. iso_to_datetime s \<noteq> Raised"
    by (simp add: iso_to_datetime_def)
  have c': "\<And>x. x \<in> set (object_columns fives) \<Longrightarrow> read_csv_object (series fives x)"
    using c by (simp add: o)
  have t: "snd (attempt_type_conversion plain_to_numeric iso_to_datetime fives) =
      concat (map (\<lambda>c. log_lines c (spec_verdict plain_to_numeric iso_to_datetime (len fives)
                                       (series fives c)))
                (object_columns fives))"
    using type_inference_thresholds [OF d r1 r2 c'] by (rule conjunct1)
  show ?thesis
    by (intro conjI)
       (rule d, rule o, rule c, rule t, rule conv_fives, rule conv_mixed, rule conv_flags,
        rule conv_dates)
qed

section \<open>Type conversion on load\<close>

text \<open>An upload never gets past line 160: line 144 has read the stream to its end, so
  the load of line 157 fails and the run returns, the session untouched.\<close>

lemma upload_returns_at_line_160:
  "main_overview fs (Some u) False s = (Inr Returned, s)"
  by (simp add: main_overview_def main_load_def load_csv_def parse_csv_def
        split: file_content.splits)

lemma upload_of_dates_returns:
  "main_overview demo_files (Some dates_upload) False fresh_session
     = (Inr Returned, fresh_session)"
  by (rule upload_returns_at_line_160)

text \<open>No line of \<open>main\<close> stores the change lines: a run leaves them as they were, and
  when they were never stored no run gets past line 209.\<close>

lemma show_overview_changes:
  "ss_conversion_changes (snd (show_overview s)) = ss_conversion_changes s"
  by (simp add: show_overview_def split: option.splits)

lemma main_load_changes:
  "ss_conversion_changes (snd (main_load fs src s)) = ss_conversion_changes s"
  by (simp add: main_load_def show_overview_changes
        split: prod.splits option.splits source.splits sum.splits error.splits)

lemma main_overview_changes:
  "ss_conversion_changes (snd (main_overview fs uploaded_file use_sample s))
     = ss_conversion_changes s"
  by (simp add: main_overview_def main_load_changes
        split: option.splits sum.splits error.splits)

lemma show_overview_unset:
  "ss_conversion_changes s = None \<Longrightarrow> fst (show_overview s) \<noteq> Inr (Shown df changes)"
  by (simp add: show_overview_def split: option.splits)

lemma main_load_unset:
  "ss_conversion_changes s = None \<Longrightarrow> fst (main_load fs src s) \<noteq> Inr (Shown df changes)"
  by (auto simp: main_load_def show_overview_def
        split: prod.splits option.splits source.splits sum.splits error.splits)

lemma main_overview_unset:
  "ss_conversion_changes s = None \<Longrightarrow>
     fst (main_overview fs uploaded_file use_sample s) \<noteq> Inr (Shown df changes)"
  by (auto simp: main_overview_def main_load_unset
        split: option.splits sum.splits error.splits)

text \<open>With the demo box ticked and a readable sample file, a fresh session stores the
  frame as read and stops at line 209.\<close>

lemma main_overview_sample:
  assumes "fs ''sample_data.csv'' = Some (Csv df)"
  shows "main_overview fs uploaded_file True fresh_session =
           (Inl (AttributeError ''conversion_changes''),
            \<lparr>ss_df = Some df, ss_filename = Some ''sample_data.csv'',
             ss_conversion_changes = None\<rparr>)"
  using assms
  by (simp add: main_overview_def main_load_def load_csv_def parse_csv_def show_overview_def
        current_filename_def fresh_session_def)

text \<open>
  C2: the claim is that the frame every later section works on is the output of
  \<^verbatim>\<open>attempt_type_conversion\<close> and that the change lines shown are the ones it produced. The
  code of \<open>main\<close> never calls \<^verbatim>\<open>attempt_type_conversion\<close> and never stores
  \<^verbatim>\<open>conversion_changes\<close>. With the demo box ticked on a fresh session and the frame
  \<open>dates\<close> in sample_data.csv, the frame stored for the later sections is the frame as
  read, which is not what the conversion gives; no change lines are stored; and the run
  ends at line 209 with an AttributeError.
\<close>

theorem conversion_never_applied:
  "main_overview demo_files None True fresh_session =
     (Inl (AttributeError ''conversion_changes''),
      \<lparr>ss_df = Some dates, ss_filename = Some ''sample_data.csv'',
       ss_conversion_changes = None\<rparr>) \<and>
   fst (attempt_type_conversion plain_to_numeric iso_to_datetime dates) \<noteq> dates \<and>
   snd (attempt_type_conversion plain_to_numeric iso_to_datetime dates)
     = [change_line ''day'' ''datetime'']"
proof -
  have "demo_files ''sample_data.csv'' = Some (Csv dates)"
    by (simp add: demo_files_def)
  from main_overview_sample [of demo_files dates None, OF this]
  have "main_overview demo_files None True fresh_session =
     (Inl (AttributeError ''conversion_changes''),
      \<lparr>ss_df = Some dates, ss_filename = Some ''sample_data.csv'',
       ss_conversion_changes = None\<rparr>)" .
  moreover have "fst (attempt_type_conversion plain_to_numeric iso_to_datetime dates) \<noteq> dates"
    by (simp add: conv_dates) (simp add: dates_def)
  ultimately show ?thesis by (simp add: conv_dates)
qed

end
